theory Spec2Isabelle
  imports Complex_Main
begin

section \<open>The meditation timer\<close>

text \<open>
  The repository holds the timer script in several variants. All keep one global object
  \<^verbatim>\<open>timerState\<close> that every function mutates; the model passes it explicitly. The
  fields every variant with an end timestamp has are the record \<open>timerState\<close>; each
  variant extends it with its own fields. Numbers are integers: \<^verbatim>\<open>Date.now()\<close> is a
  whole number of milliseconds, and every value the code computes from it stays far below
  \<open>2^53\<close>, where JavaScript's doubles are exact.

  Beside the fields of the object, the record holds what the functions write outside it:
  the text of the toggle button, the two display fields (as the numbers
  \<^verbatim>\<open>updateDisplay\<close> formats), the requests the code sends to the audio subsystem, in
  the order they are sent, and the host's interval timers: the identifiers of the timers
  that are live, and how many identifiers \<^verbatim>\<open>setInterval\<close> has issued so far.
\<close>

datatype audio_request =
    CreateContext          \<comment> \<open>\<^verbatim>\<open>new AudioContext()\<close>\<close>
  | ResumeContext          \<comment> \<open>\<^verbatim>\<open>ctx.resume()\<close> with nothing chained\<close>
  | KeepAliveStart         \<comment> \<open>\<^verbatim>\<open>source.start(0)\<close> of the looping near-silent buffer\<close>
  | KeepAliveStop          \<comment> \<open>\<^verbatim>\<open>keepAliveAudio.source.stop()\<close>\<close>
  | ScheduleTones int      \<comment> \<open>three oscillators started at \<^verbatim>\<open>ctx.currentTime + remaining\<close>\<close>
  | StopScheduledTones     \<comment> \<open>\<^verbatim>\<open>osc.stop()\<close> on every scheduled oscillator\<close>
  | BellTones              \<comment> \<open>\<^verbatim>\<open>_playBellTones(ctx)\<close>: three oscillators started now\<close>
  | ResumeThenBellTones    \<comment> \<open>\<^verbatim>\<open>ctx.resume().then(() => _playBellTones(ctx))\<close>\<close>
  | KeepAliveElPause       \<comment> \<open>\<^verbatim>\<open>keepAliveEl.pause()\<close>, source removed\<close>
  | BellElPlay             \<comment> \<open>\<^verbatim>\<open>bellEl.play()\<close>\<close>
  | BellUrlPlay            \<comment> \<open>\<^verbatim>\<open>new Audio(bellWavUrl).play()\<close>\<close>
  | FallbackTones          \<comment> \<open>three oscillators on a context made on the spot\<close>
  | TimerAudioPause        \<comment> \<open>\<^verbatim>\<open>timerAudio.pause()\<close>\<close>
  | RevokeUrl              \<comment> \<open>\<^verbatim>\<open>URL.revokeObjectURL(timerAudioUrl)\<close>\<close>

record timerState =
  duration :: int
  remaining :: int
  endTime :: "int option"
  isRunning :: bool
  interval :: "nat option"         \<comment> \<open>the stored \<^verbatim>\<open>setInterval\<close> identifier, or \<^verbatim>\<open>null\<close>\<close>
  toggleText :: string             \<comment> \<open>\<^verbatim>\<open>toggleBtn.textContent\<close>\<close>
  minutesShown :: int              \<comment> \<open>the number behind \<^verbatim>\<open>minutesDisplay.textContent\<close>\<close>
  secondsShown :: int              \<comment> \<open>the number behind \<^verbatim>\<open>secondsDisplay.textContent\<close>\<close>
  audio :: "audio_request list"
  timers :: "nat list"             \<comment> \<open>identifiers of the live interval timers (all run \<^verbatim>\<open>tick\<close>)\<close>
  issued :: nat                    \<comment> \<open>identifiers issued so far; the next one is \<open>issued + 1\<close>\<close>

text \<open>\<^verbatim>\<open>script.js\<close>: a Web Audio context, a looping buffer and a pre-scheduled bell.\<close>

record scriptState = timerState +
  audioContext :: bool             \<comment> \<open>an \<^verbatim>\<open>AudioContext\<close> is stored (not \<^verbatim>\<open>null\<close>)\<close>
  keepAliveAudio :: bool           \<comment> \<open>a \<^verbatim>\<open>{source, gain}\<close> pair is stored (not \<^verbatim>\<open>null\<close>)\<close>
  scheduledBell :: "int list option"  \<comment> \<open>frequencies of the pre-scheduled oscillators\<close>

text \<open>What a function reads from the host when it runs.\<close>

record host =
  now :: int                \<comment> \<open>\<^verbatim>\<open>Date.now()\<close>, milliseconds\<close>
  audioSupported :: bool    \<comment> \<open>\<^verbatim>\<open>window.AudioContext || window.webkitAudioContext\<close> is a constructor\<close>
  ctxSuspended :: bool      \<comment> \<open>\<^verbatim>\<open>ctx.state === 'suspended'\<close> for the stored context\<close>

datatype error = TypeError

text \<open>The object literal the script starts with, and the page as it is loaded.\<close>

definition initial :: scriptState where
  "initial =
     \<lparr> duration = 10 * 60, remaining = 10 * 60, endTime = None, isRunning = False,
       interval = None, toggleText = ''Start'', minutesShown = 10, secondsShown = 0,
       audio = [], timers = [], issued = 0,
       audioContext = False, keepAliveAudio = False, scheduledBell = None \<rparr>"

subsection \<open>JavaScript arithmetic\<close>

text \<open>\<^verbatim>\<open>a % b\<close> takes the sign of the dividend.\<close>

definition js_rem :: "int \<Rightarrow> int \<Rightarrow> int" where
  "js_rem a b = sgn a * (\<bar>a\<bar> mod \<bar>b\<bar>)"

text \<open>\<^verbatim>\<open>null\<close> in arithmetic is \<open>0\<close>.\<close>

definition to_number :: "int option \<Rightarrow> int" where
  "to_number v = (case v of None \<Rightarrow> 0 | Some n \<Rightarrow> n)"

subsection \<open>Display\<close>

definition updateDisplay :: "'a timerState_scheme \<Rightarrow> 'a timerState_scheme" where
  "updateDisplay s =
     s\<lparr> minutesShown := remaining s div 60, secondsShown := js_rem (remaining s) 60 \<rparr>"

subsection \<open>Adjusting the duration\<close>

definition adjustTime :: "string \<Rightarrow> int \<Rightarrow> 'a timerState_scheme \<Rightarrow> 'a timerState_scheme" where
  "adjustTime type delta s =
     (if isRunning s then s
      else
        let mins = duration s div 60;
            secs = js_rem (duration s) 60;
            (mins', secs') =
              (if type = ''min'' then (max 0 (min 60 (mins + delta)), secs)
               else
                 let secs1 = secs + delta in
                 if secs1 \<ge> 60 then (min 60 (mins + 1), 0)
                 else if secs1 < 0 then (max 0 (mins - 1), 55)
                 else (mins, secs1));
            newDuration = mins' * 60 + secs'
        in if newDuration \<ge> 5
           then updateDisplay (s\<lparr> duration := newDuration, remaining := newDuration \<rparr>)
           else s)"

subsection \<open>Audio\<close>

text \<open>
  \<^verbatim>\<open>initAudio\<close> is the one place that can throw: with no stored context and no
  constructor in the host, \<^verbatim>\<open>new (undefined)()\<close> is a \<^verbatim>\<open>TypeError\<close>, raised before
  anything is written.
\<close>

definition initAudio :: "host \<Rightarrow> scriptState \<Rightarrow> error + scriptState" where
  "initAudio h s =
     (if \<not> audioContext s \<and> \<not> audioSupported h then Inl TypeError
      else
        let s1 = (if \<not> audioContext s
                  then s\<lparr> audioContext := True, audio := audio s @ [CreateContext] \<rparr>
                  else s)
        in Inr (if ctxSuspended h then s1\<lparr> audio := audio s1 @ [ResumeContext] \<rparr> else s1))"

definition startKeepAlive :: "scriptState \<Rightarrow> scriptState" where
  "startKeepAlive s =
     (if keepAliveAudio s then s
      else if \<not> audioContext s then s
      else s\<lparr> audio := audio s @ [KeepAliveStart], keepAliveAudio := True \<rparr>)"

definition stopKeepAlive :: "scriptState \<Rightarrow> scriptState" where
  "stopKeepAlive s =
     (if keepAliveAudio s
      then s\<lparr> audio := audio s @ [KeepAliveStop], keepAliveAudio := False \<rparr>
      else s)"

definition cancelScheduledBell :: "scriptState \<Rightarrow> scriptState" where
  "cancelScheduledBell s =
     (case scheduledBell s of
        None \<Rightarrow> s
      | Some oscillators \<Rightarrow> s\<lparr> audio := audio s @ [StopScheduledTones], scheduledBell := None \<rparr>)"

definition scheduleBell :: "scriptState \<Rightarrow> scriptState" where
  "scheduleBell s =
     (if \<not> audioContext s then s
      else
        let s1 = cancelScheduledBell s
        in s1\<lparr> audio := audio s1 @ [ScheduleTones (remaining s1)],
               scheduledBell := Some [528, 396, 639] \<rparr>)"

definition playBellTones :: "scriptState \<Rightarrow> scriptState" where
  "playBellTones s = s\<lparr> audio := audio s @ [BellTones] \<rparr>"

definition playBellNow :: "host \<Rightarrow> scriptState \<Rightarrow> scriptState" where
  "playBellNow h s =
     (if \<not> audioContext s then s
      else if ctxSuspended h then s\<lparr> audio := audio s @ [ResumeThenBellTones] \<rparr>
      else playBellTones s)"

subsection \<open>Interval timers of the host\<close>

definition setInterval :: "'a timerState_scheme \<Rightarrow> nat \<times> 'a timerState_scheme" where
  "setInterval s = (let k = Suc (issued s) in (k, s\<lparr> timers := k # timers s, issued := k \<rparr>))"

definition clearInterval :: "nat \<Rightarrow> 'a timerState_scheme \<Rightarrow> 'a timerState_scheme" where
  "clearInterval k s = s\<lparr> timers := removeAll k (timers s) \<rparr>"

text \<open>The pattern \<^verbatim>\<open>if (timerState.interval) { clearInterval(...); timerState.interval = null; }\<close>
  of \<^verbatim>\<open>tick\<close> and \<^verbatim>\<open>stopTimer\<close>. The host issues positive identifiers, so a stored
  identifier is truthy and the test is the test for \<^verbatim>\<open>null\<close>.\<close>

definition cancelHeartbeat :: "'a timerState_scheme \<Rightarrow> 'a timerState_scheme" where
  "cancelHeartbeat s =
     (case interval s of
        None \<Rightarrow> s
      | Some k \<Rightarrow> (clearInterval k s)\<lparr> interval := None \<rparr>)"

subsection \<open>Timer logic\<close>

definition tick :: "host \<Rightarrow> scriptState \<Rightarrow> scriptState" where
  "tick h s =
     (let s1 = updateDisplay
                 (s\<lparr> remaining :=
                       max 0 \<lceil>real_of_int (to_number (endTime s) - now h) / 1000\<rceil> \<rparr>)
      in if remaining s1 \<le> 0 then
           let s2 = s1\<lparr> isRunning := False, toggleText := ''Start'' \<rparr>;
               s3 = cancelHeartbeat s2;
               s4 = stopKeepAlive s3;
               s5 = playBellNow h s4;
               s6 = s5\<lparr> scheduledBell := None \<rparr>;
               s7 = s6\<lparr> remaining := duration s6 \<rparr>
           in updateDisplay s7
         else s1)"

definition startTimer :: "host \<Rightarrow> scriptState \<Rightarrow> error + scriptState" where
  "startTimer h s =
     (case initAudio h s of
        Inl e \<Rightarrow> Inl e
      | Inr s1 \<Rightarrow>
          let s2 = s1\<lparr> isRunning := True, endTime := Some (now h + remaining s1 * 1000),
                       toggleText := ''Pause'' \<rparr>;
              s3 = startKeepAlive s2;
              s4 = scheduleBell s3;
              (k, s5) = setInterval s4
          in Inr (s5\<lparr> interval := Some k \<rparr>))"

definition stopTimer :: "scriptState \<Rightarrow> scriptState" where
  "stopTimer s =
     (let s1 = s\<lparr> isRunning := False, endTime := None, toggleText := ''Start'' \<rparr>;
          s2 = cancelHeartbeat s1;
          s3 = cancelScheduledBell s2
      in stopKeepAlive s3)"

definition resetTimer :: "scriptState \<Rightarrow> scriptState" where
  "resetTimer s = (let s1 = stopTimer s in updateDisplay (s1\<lparr> remaining := duration s1 \<rparr>))"

subsection \<open>Event wiring\<close>

text \<open>
  The listeners the script registers, and the host's interval timers. A timer that is
  live runs \<^verbatim>\<open>tick\<close>; one that was cleared never runs again. An exception ends the
  listener that raised it and leaves the state as it was at the \<^verbatim>\<open>throw\<close>; the only
  one here is raised in \<^verbatim>\<open>initAudio\<close> before any write.
\<close>

datatype event =
    ToggleClick
  | ResetClick
  | MinUpClick | MinDownClick | SecUpClick | SecDownClick
  | VisibilityChange bool     \<comment> \<open>\<^verbatim>\<open>document.visibilityState === 'visible'\<close>\<close>
  | IntervalFire nat          \<comment> \<open>the host runs the callback of this interval timer\<close>

definition dispatch :: "host \<Rightarrow> event \<Rightarrow> scriptState \<Rightarrow> scriptState" where
  "dispatch h ev s =
     (case ev of
        ToggleClick \<Rightarrow>
          (if isRunning s then stopTimer s
           else (case startTimer h s of Inl e \<Rightarrow> s | Inr s' \<Rightarrow> s'))
      | ResetClick \<Rightarrow> resetTimer s
      | MinUpClick \<Rightarrow> adjustTime ''min'' 1 s
      | MinDownClick \<Rightarrow> adjustTime ''min'' (- 1) s
      | SecUpClick \<Rightarrow> adjustTime ''sec'' 5 s
      | SecDownClick \<Rightarrow> adjustTime ''sec'' (- 5) s
      | VisibilityChange visible \<Rightarrow>
          (if visible \<and> isRunning s
           then (case initAudio h s of Inl e \<Rightarrow> s | Inr s' \<Rightarrow> tick h s')
           else s)
      | IntervalFire k \<Rightarrow> (if k \<in> set (timers s) then tick h s else s))"

fun run :: "(host \<times> event) list \<Rightarrow> scriptState \<Rightarrow> scriptState" where
  "run [] s = s"
| "run ((h, ev) # rest) s = run rest (dispatch h ev s)"

subsection \<open>The variant that keeps an audio element playing\<close>

text \<open>
  The first script of \<^verbatim>\<open>part_002\<close> loops a near-silent \<^verbatim>\<open><audio>\<close> element, whose
  \<^verbatim>\<open>timeupdate\<close> events are a second heartbeat, and plays a bell rendered beforehand.
  Its \<^verbatim>\<open>tick\<close> begins with a check of \<^verbatim>\<open>isRunning\<close>.
\<close>

record elementState = timerState +
  silentWavUrl :: bool             \<comment> \<open>a blob URL is stored (not \<^verbatim>\<open>null\<close>)\<close>
  keepAliveEl :: bool              \<comment> \<open>the looping element is stored\<close>
  bellWavUrl :: bool               \<comment> \<open>the rendered bell's URL is stored\<close>
  bellEl :: bool                   \<comment> \<open>the primed bell element is stored\<close>
  bellReady :: bool

definition stopKeepAlive_el :: "elementState \<Rightarrow> elementState" where
  "stopKeepAlive_el s =
     (if keepAliveEl s
      then s\<lparr> audio := audio s @ [KeepAliveElPause], keepAliveEl := False \<rparr>
      else s)"

text \<open>The last branch is inside \<^verbatim>\<open>try { ... } catch (e) {}\<close>: without a constructor it
  does nothing.\<close>

definition playBell_el :: "host \<Rightarrow> elementState \<Rightarrow> elementState" where
  "playBell_el h s =
     (if bellEl s then s\<lparr> audio := audio s @ [BellElPlay], bellEl := False \<rparr>
      else if bellWavUrl s then s\<lparr> audio := audio s @ [BellUrlPlay] \<rparr>
      else if audioSupported h then s\<lparr> audio := audio s @ [FallbackTones] \<rparr>
      else s)"

definition tick_el :: "host \<Rightarrow> elementState \<Rightarrow> elementState" where
  "tick_el h s =
     (if \<not> isRunning s then s
      else
        let s1 = updateDisplay
                   (s\<lparr> remaining :=
                         max 0 \<lceil>real_of_int (to_number (endTime s) - now h) / 1000\<rceil> \<rparr>)
        in if remaining s1 \<le> 0 then
             let s2 = s1\<lparr> isRunning := False, toggleText := ''Start'' \<rparr>;
                 s3 = cancelHeartbeat s2;
                 s4 = stopKeepAlive_el s3;
                 s5 = playBell_el h s4;
                 s6 = s5\<lparr> remaining := duration s5 \<rparr>
             in updateDisplay s6
           else s1)"

fun ticks_el :: "host list \<Rightarrow> elementState \<Rightarrow> elementState" where
  "ticks_el [] s = s"
| "ticks_el (h # hs) s = ticks_el hs (tick_el h s)"

subsection \<open>The variant that plays one file of silence and bell\<close>

text \<open>
  The second script of \<^verbatim>\<open>part_000\<close> starts, with the timer, one audio file that is
  silent for the duration and ends with the bell. Its \<^verbatim>\<open>stopTimer\<close> reads the clock.
\<close>

record wavState = timerState +
  timerAudio :: bool               \<comment> \<open>the playing element is stored (not \<^verbatim>\<open>null\<close>)\<close>
  timerAudioUrl :: bool            \<comment> \<open>its blob URL is stored\<close>

text \<open>\<^verbatim>\<open>if (timerState.endTime)\<close>: \<^verbatim>\<open>null\<close> and \<open>0\<close> are falsy.\<close>

definition truthy :: "int option \<Rightarrow> bool" where
  "truthy v = (case v of None \<Rightarrow> False | Some n \<Rightarrow> n \<noteq> 0)"

definition cleanupAudio :: "wavState \<Rightarrow> wavState" where
  "cleanupAudio s =
     (let s1 = (if timerAudio s
                then s\<lparr> audio := audio s @ [TimerAudioPause], timerAudio := False \<rparr>
                else s)
      in if timerAudioUrl s1
         then s1\<lparr> audio := audio s1 @ [RevokeUrl], timerAudioUrl := False \<rparr>
         else s1)"

definition stopTimer_wav :: "host \<Rightarrow> wavState \<Rightarrow> wavState" where
  "stopTimer_wav h s =
     (let s0 = (if isRunning s \<and> truthy (endTime s)
                then s\<lparr> remaining :=
                        max 0 \<lceil>real_of_int (to_number (endTime s) - now h) / 1000\<rceil> \<rparr>
                else s);
          s1 = s0\<lparr> isRunning := False, endTime := None, toggleText := ''Start'' \<rparr>;
          s2 = cancelHeartbeat s1
      in cleanupAudio s2)"

subsection \<open>Observations used in the statements\<close>

text \<open>
  The completion signal reaches the audio subsystem in two ways. A request to ring now is
  what \<^verbatim>\<open>playBellNow\<close> (or \<^verbatim>\<open>playBell\<close>) sends when \<^verbatim>\<open>tick\<close> finds the time up;
  \<open>rung\<close> counts these. A set of tones scheduled ahead is what \<^verbatim>\<open>scheduleBell\<close> sends
  when the timer starts, to sound at the end time by the audio clock; it sounds unless
  \<^verbatim>\<open>cancelScheduledBell\<close> stops it, and every stop request stops one scheduled set (the
  one stored in \<^verbatim>\<open>scheduledBell\<close>), so \<open>standing\<close>, the scheduled sets less the stop
  requests, counts the scheduled sets left to sound. \<open>fired\<close> counts every set of completion
  tones asked for and not stopped.
\<close>

definition rings_now :: "audio_request \<Rightarrow> bool" where
  "rings_now r \<longleftrightarrow> r \<in> {BellTones, ResumeThenBellTones, BellElPlay, BellUrlPlay, FallbackTones}"

definition rung :: "'a timerState_scheme \<Rightarrow> nat" where
  "rung s = length (filter rings_now (audio s))"

fun schedules :: "audio_request \<Rightarrow> bool" where
  "schedules (ScheduleTones seconds) = True"
| "schedules r = False"

definition standing :: "'a timerState_scheme \<Rightarrow> int" where
  "standing s =
     int (length (filter schedules (audio s))) -
     int (length (filter (\<lambda>r. r = StopScheduledTones) (audio s)))"

definition fired :: "'a timerState_scheme \<Rightarrow> int" where
  "fired s = int (rung s) + standing s"

text \<open>The events through which the script calls \<^verbatim>\<open>tick\<close>.\<close>

fun is_trigger :: "event \<Rightarrow> bool" where
  "is_trigger (VisibilityChange visible) = True"
| "is_trigger (IntervalFire k) = True"
| "is_trigger ev = False"

definition triggers_only :: "(host \<times> event) list \<Rightarrow> bool" where
  "triggers_only tr = list_all (\<lambda>(h, ev). is_trigger ev) tr"

text \<open>The events that do not end a run by hand: all but the clicks on toggle and reset.\<close>

fun keeps_run :: "event \<Rightarrow> bool" where
  "keeps_run ToggleClick = False"
| "keeps_run ResetClick = False"
| "keeps_run ev = True"

definition uninterrupted :: "(host \<times> event) list \<Rightarrow> bool" where
  "uninterrupted tr = list_all (\<lambda>(h, ev). keeps_run ev) tr"

text \<open>The operations of the timer in \<^verbatim>\<open>script.js\<close>, applied in any state; an operation
  that throws leaves the state as it is.\<close>

datatype operation =
    Start host
  | Stop
  | Tick host
  | AdjustTime string int
  | Reset
  | InitAudio host

fun apply_op :: "operation \<Rightarrow> scriptState \<Rightarrow> scriptState" where
  "apply_op (Start h) s = (case startTimer h s of Inl e \<Rightarrow> s | Inr s' \<Rightarrow> s')"
| "apply_op Stop s = stopTimer s"
| "apply_op (Tick h) s = tick h s"
| "apply_op (AdjustTime type delta) s = adjustTime type delta s"
| "apply_op Reset s = resetTimer s"
| "apply_op (InitAudio h) s = (case initAudio h s of Inl e \<Rightarrow> s | Inr s' \<Rightarrow> s')"

fun apply_ops :: "operation list \<Rightarrow> scriptState \<Rightarrow> scriptState" where
  "apply_ops [] s = s"
| "apply_ops (x # xs) s = apply_ops xs (apply_op x s)"

text \<open>A host with audio, its context running, at clock value \<open>t\<close>.\<close>

definition at_ms :: "int \<Rightarrow> host" where
  "at_ms t = \<lparr> now = t, audioSupported = True, ctxSuspended = False \<rparr>"

text \<open>Started at clock value \<open>0\<close> and not yet observed.\<close>

definition started :: scriptState where
  "started = run [(at_ms 0, ToggleClick)] initial"

text \<open>Started at \<open>0\<close> and observed once, by a heartbeat that comes at \<open>1004\<close>.\<close>

definition observed :: scriptState where
  "observed = run [(at_ms 0, ToggleClick), (at_ms 1004, IntervalFire 1)] initial"

text \<open>Started at \<open>0\<close>, observed by the heartbeat at \<open>3000\<close>, paused at \<open>3500\<close>.\<close>

definition paused :: scriptState where
  "paused = run [(at_ms 0, ToggleClick), (at_ms 3000, IntervalFire 1), (at_ms 3500, ToggleClick)] initial"

text \<open>Started at \<open>0\<close> and observed by the heartbeat at \<open>600000\<close>, when the time is up.\<close>

definition expired :: scriptState where
  "expired = run [(at_ms 0, ToggleClick), (at_ms 600000, IntervalFire 1)] initial"

text \<open>Fifty clicks on the minute-up button, then one on the second-up button.\<close>

definition to_the_top :: "(host \<times> event) list" where
  "to_the_top = replicate 50 (at_ms 0, MinUpClick) @ [(at_ms 0, SecUpClick)]"

text \<open>How a state of \<^verbatim>\<open>script.js\<close> is wired while the page runs: the stored interval
  timer is the only live one, there is one exactly while the timer runs, tones are
  scheduled ahead exactly while the timer runs, and a running timer has its audio context
  and its end timestamp.\<close>

definition wired :: "scriptState \<Rightarrow> bool" where
  "wired s \<longleftrightarrow>
     timers s = (case interval s of None \<Rightarrow> [] | Some k \<Rightarrow> [k]) \<and>
     (isRunning s \<longleftrightarrow> interval s \<noteq> None) \<and>
     (isRunning s \<longleftrightarrow> scheduledBell s \<noteq> None) \<and>
     (isRunning s \<longrightarrow> audioContext s \<and> endTime s \<noteq> None)"

text \<open>The durations the buttons can reach, as the invariant below shows: multiples of five
  seconds from 5 to 3655.\<close>

definition on_grid :: "int \<Rightarrow> bool" where
  "on_grid d \<longleftrightarrow> 5 \<le> d \<and> d \<le> 3655 \<and> 5 dvd d"

text \<open>The variant with the audio element, as its page is loaded.\<close>

definition initial_el :: elementState where
  "initial_el =
     \<lparr> duration = 10 * 60, remaining = 10 * 60, endTime = None, isRunning = False,
       interval = None, toggleText = ''Start'', minutesShown = 10, secondsShown = 0,
       audio = [], timers = [], issued = 0,
       silentWavUrl = False, keepAliveEl = False, bellWavUrl = False, bellEl = False,
       bellReady = False \<rparr>"

text \<open>An idle state with the given duration.\<close>

definition with_duration :: "int \<Rightarrow> scriptState" where
  "with_duration d = initial\<lparr> duration := d, remaining := d \<rparr>"


section \<open>Arithmetic of the code\<close>

lemma ceil_ms: "\<lceil>real_of_int x / 1000\<rceil> = - ((- x) div 1000)"
  using ceiling_divide_eq_div [of x 1000] by simp

lemma observed_le_0_iff: "max 0 \<lceil>real_of_int (e - t) / 1000\<rceil> \<le> 0 \<longleftrightarrow> e \<le> t"
  by (simp add: ceil_ms)

lemma js_rem_nonneg: "0 \<le> a \<Longrightarrow> js_rem a 60 = a mod 60"
  by (cases "a = 0") (simp_all add: js_rem_def)

section \<open>What each function of \<^verbatim>\<open>script.js\<close> leaves alone\<close>

lemma updateDisplay_fields [simp]:
  "duration (updateDisplay s) = duration s"
  "remaining (updateDisplay s) = remaining s"
  "endTime (updateDisplay s) = endTime s"
  "isRunning (updateDisplay s) = isRunning s"
  "interval (updateDisplay s) = interval s"
  "timers (updateDisplay s) = timers s"
  "audio (updateDisplay s) = audio s"
  by (simp_all add: updateDisplay_def)

lemma updateDisplay_script [simp]:
  "audioContext (updateDisplay s) = audioContext s"
  "keepAliveAudio (updateDisplay s) = keepAliveAudio s"
  "scheduledBell (updateDisplay s) = scheduledBell s"
  by (simp_all add: updateDisplay_def)

lemma cancelHeartbeat_fields [simp]:
  "duration (cancelHeartbeat s) = duration s"
  "remaining (cancelHeartbeat s) = remaining s"
  "endTime (cancelHeartbeat s) = endTime s"
  "isRunning (cancelHeartbeat s) = isRunning s"
  "interval (cancelHeartbeat s) = None"
  "audio (cancelHeartbeat s) = audio s"
  by (simp_all add: cancelHeartbeat_def clearInterval_def split: option.splits)

lemma cancelHeartbeat_script [simp]:
  "audioContext (cancelHeartbeat s) = audioContext s"
  "keepAliveAudio (cancelHeartbeat s) = keepAliveAudio s"
  "scheduledBell (cancelHeartbeat s) = scheduledBell s"
  by (simp_all add: cancelHeartbeat_def clearInterval_def split: option.splits)

lemma timers_cancelHeartbeat:
  "timers (cancelHeartbeat s) = (case interval s of None \<Rightarrow> timers s | Some k \<Rightarrow> removeAll k (timers s))"
  by (simp add: cancelHeartbeat_def clearInterval_def split: option.splits)

lemma stopKeepAlive_fields [simp]:
  "duration (stopKeepAlive s) = duration s"
  "remaining (stopKeepAlive s) = remaining s"
  "endTime (stopKeepAlive s) = endTime s"
  "isRunning (stopKeepAlive s) = isRunning s"
  "interval (stopKeepAlive s) = interval s"
  "timers (stopKeepAlive s) = timers s"
  "audioContext (stopKeepAlive s) = audioContext s"
  "scheduledBell (stopKeepAlive s) = scheduledBell s"
  "keepAliveAudio (stopKeepAlive s) = False"
  "rung (stopKeepAlive s) = rung s"
  "standing (stopKeepAlive s) = standing s"
  by (simp_all add: stopKeepAlive_def rung_def rings_now_def standing_def)

lemma startKeepAlive_fields [simp]:
  "duration (startKeepAlive s) = duration s"
  "remaining (startKeepAlive s) = remaining s"
  "endTime (startKeepAlive s) = endTime s"
  "isRunning (startKeepAlive s) = isRunning s"
  "interval (startKeepAlive s) = interval s"
  "timers (startKeepAlive s) = timers s"
  "issued (startKeepAlive s) = issued s"
  "audioContext (startKeepAlive s) = audioContext s"
  "scheduledBell (startKeepAlive s) = scheduledBell s"
  "rung (startKeepAlive s) = rung s"
  "standing (startKeepAlive s) = standing s"
  by (simp_all add: startKeepAlive_def rung_def rings_now_def standing_def)

lemma cancelScheduledBell_fields [simp]:
  "duration (cancelScheduledBell s) = duration s"
  "remaining (cancelScheduledBell s) = remaining s"
  "endTime (cancelScheduledBell s) = endTime s"
  "isRunning (cancelScheduledBell s) = isRunning s"
  "interval (cancelScheduledBell s) = interval s"
  "timers (cancelScheduledBell s) = timers s"
  "issued (cancelScheduledBell s) = issued s"
  "audioContext (cancelScheduledBell s) = audioContext s"
  "keepAliveAudio (cancelScheduledBell s) = keepAliveAudio s"
  "scheduledBell (cancelScheduledBell s) = None"
  "rung (cancelScheduledBell s) = rung s"
  by (simp_all add: cancelScheduledBell_def rung_def rings_now_def split: option.splits)

lemma scheduleBell_fields [simp]:
  "duration (scheduleBell s) = duration s"
  "remaining (scheduleBell s) = remaining s"
  "endTime (scheduleBell s) = endTime s"
  "isRunning (scheduleBell s) = isRunning s"
  "interval (scheduleBell s) = interval s"
  "timers (scheduleBell s) = timers s"
  "issued (scheduleBell s) = issued s"
  "audioContext (scheduleBell s) = audioContext s"
  by (simp_all add: scheduleBell_def Let_def)

lemma rung_scheduleBell [simp]: "rung (scheduleBell s) = rung s"
  by (simp add: scheduleBell_def cancelScheduledBell_def Let_def rung_def rings_now_def
        split: option.splits)

lemma scheduledBell_scheduleBell:
  "scheduledBell (scheduleBell s) =
     (if audioContext s then Some [528, 396, 639] else scheduledBell s)"
  by (simp add: scheduleBell_def Let_def)

text \<open>A stop request is sent exactly when a scheduled set is stored, and takes it off.\<close>

lemma standing_cancelScheduledBell:
  "standing (cancelScheduledBell s) =
     (if scheduledBell s = None then standing s else standing s - 1)"
  by (simp add: cancelScheduledBell_def standing_def split: option.splits)

lemma standing_scheduleBell:
  "standing (scheduleBell s) =
     (if \<not> audioContext s then standing s
      else if scheduledBell s = None then standing s + 1 else standing s)"
  by (simp add: scheduleBell_def cancelScheduledBell_def Let_def standing_def
        split: option.splits)

lemma playBellNow_fields [simp]:
  "duration (playBellNow h s) = duration s"
  "remaining (playBellNow h s) = remaining s"
  "endTime (playBellNow h s) = endTime s"
  "isRunning (playBellNow h s) = isRunning s"
  "interval (playBellNow h s) = interval s"
  "timers (playBellNow h s) = timers s"
  "audioContext (playBellNow h s) = audioContext s"
  "keepAliveAudio (playBellNow h s) = keepAliveAudio s"
  "scheduledBell (playBellNow h s) = scheduledBell s"
  by (simp_all add: playBellNow_def playBellTones_def)

lemma rung_playBellNow:
  "rung (playBellNow h s) = (if audioContext s then rung s + 1 else rung s)"
  by (simp add: playBellNow_def playBellTones_def rung_def rings_now_def)

lemma standing_playBellNow [simp]: "standing (playBellNow h s) = standing s"
  by (simp add: playBellNow_def playBellTones_def standing_def)

lemma rung_update [simp]:
  "rung (updateDisplay s) = rung s"
  "rung (cancelHeartbeat s) = rung s"
  "rung (s\<lparr> remaining := r \<rparr>) = rung s"
  "rung (s\<lparr> isRunning := b \<rparr>) = rung s"
  "rung (s\<lparr> toggleText := x \<rparr>) = rung s"
  "rung (s\<lparr> endTime := t \<rparr>) = rung s"
  "rung (s\<lparr> interval := i \<rparr>) = rung s"
  "rung (s\<lparr> timers := ks \<rparr>) = rung s"
  "rung (s\<lparr> issued := n \<rparr>) = rung s"
  by (simp_all add: rung_def)

lemma rung_scheduledBell_update [simp]: "rung (s\<lparr> scheduledBell := z \<rparr>) = rung s"
  by (simp add: rung_def)

lemma standing_update [simp]:
  "standing (updateDisplay s) = standing s"
  "standing (cancelHeartbeat s) = standing s"
  "standing (s\<lparr> remaining := r \<rparr>) = standing s"
  "standing (s\<lparr> isRunning := b \<rparr>) = standing s"
  "standing (s\<lparr> toggleText := x \<rparr>) = standing s"
  "standing (s\<lparr> endTime := t \<rparr>) = standing s"
  "standing (s\<lparr> interval := i \<rparr>) = standing s"
  "standing (s\<lparr> timers := ks \<rparr>) = standing s"
  "standing (s\<lparr> issued := n \<rparr>) = standing s"
  by (simp_all add: standing_def updateDisplay_def cancelHeartbeat_def clearInterval_def
        split: option.splits)

lemma standing_scheduledBell_update [simp]:
  "standing (s\<lparr> scheduledBell := z \<rparr>) = standing s"
  by (simp add: standing_def)

lemma initAudio_fields:
  assumes "initAudio h s = Inr s'"
  shows "duration s' = duration s" "remaining s' = remaining s" "endTime s' = endTime s"
    "isRunning s' = isRunning s" "interval s' = interval s" "timers s' = timers s"
    "issued s' = issued s" "audioContext s'" "rung s' = rung s"
    "keepAliveAudio s' = keepAliveAudio s" "scheduledBell s' = scheduledBell s"
    "standing s' = standing s"
  using assms
  by (auto simp: initAudio_def Let_def rung_def rings_now_def standing_def split: if_splits)

lemma initAudio_ok: "audioContext s \<or> audioSupported h \<Longrightarrow> \<exists>s'. initAudio h s = Inr s'"
  by (auto simp: initAudio_def Let_def)

section \<open>The operations, field by field\<close>

lemma tick_expired:
  assumes "to_number (endTime s) \<le> now h"
  shows "isRunning (tick h s) = False" "remaining (tick h s) = duration s"
    "interval (tick h s) = None" "duration (tick h s) = duration s"
    "endTime (tick h s) = endTime s"
    "rung (tick h s) = (if audioContext s then rung s + 1 else rung s)"
    "timers (tick h s) = (case interval s of None \<Rightarrow> timers s | Some k \<Rightarrow> removeAll k (timers s))"
    "audioContext (tick h s) = audioContext s"
    "scheduledBell (tick h s) = None"
    "standing (tick h s) = standing s"
  using assms
  by (simp_all add: tick_def Let_def observed_le_0_iff rung_playBellNow timers_cancelHeartbeat
        split: option.splits)

lemma tick_pending:
  assumes "now h < to_number (endTime s)"
  shows "tick h s = updateDisplay
           (s\<lparr> remaining := max 0 \<lceil>real_of_int (to_number (endTime s) - now h) / 1000\<rceil> \<rparr>)"
  using assms by (simp add: tick_def Let_def observed_le_0_iff)

lemma stopTimer_fields [simp]:
  "isRunning (stopTimer s) = False" "endTime (stopTimer s) = None" "interval (stopTimer s) = None"
  "remaining (stopTimer s) = remaining s" "duration (stopTimer s) = duration s"
  "scheduledBell (stopTimer s) = None" "keepAliveAudio (stopTimer s) = False"
  "audioContext (stopTimer s) = audioContext s" "rung (stopTimer s) = rung s"
  "timers (stopTimer s) = (case interval s of None \<Rightarrow> timers s | Some k \<Rightarrow> removeAll k (timers s))"
  by (simp_all add: stopTimer_def Let_def timers_cancelHeartbeat split: option.splits)

lemma resetTimer_fields [simp]:
  "isRunning (resetTimer s) = False" "endTime (resetTimer s) = None" "interval (resetTimer s) = None"
  "remaining (resetTimer s) = duration s" "duration (resetTimer s) = duration s"
  "audioContext (resetTimer s) = audioContext s" "rung (resetTimer s) = rung s"
  "timers (resetTimer s) = (case interval s of None \<Rightarrow> timers s | Some k \<Rightarrow> removeAll k (timers s))"
  by (simp_all add: resetTimer_def Let_def)

lemma startTimer_fields:
  assumes "startTimer h s = Inr s'"
  shows "isRunning s'" "endTime s' = Some (now h + remaining s * 1000)"
    "remaining s' = remaining s" "duration s' = duration s" "audioContext s'"
    "interval s' = Some (Suc (issued s))" "timers s' = Suc (issued s) # timers s"
    "issued s' = Suc (issued s)" "rung s' = rung s"
proof -
  from assms obtain s1 where s1: "initAudio h s = Inr s1"
    by (auto simp: startTimer_def split: sum.splits)
  note f = initAudio_fields [OF s1]
  have s': "s' = (let s4 = scheduleBell (startKeepAlive
                      (s1\<lparr> isRunning := True, endTime := Some (now h + remaining s1 * 1000),
                           toggleText := ''Pause'' \<rparr>))
                  in (snd (setInterval s4))\<lparr> interval := Some (fst (setInterval s4)) \<rparr>)"
    using assms s1 by (simp add: startTimer_def Let_def split: prod.splits)
  show "isRunning s'" "endTime s' = Some (now h + remaining s * 1000)"
    "remaining s' = remaining s" "duration s' = duration s" "audioContext s'"
    "interval s' = Some (Suc (issued s))" "timers s' = Suc (issued s) # timers s"
    "issued s' = Suc (issued s)" "rung s' = rung s"
    by (simp_all add: s' Let_def setInterval_def f)
qed

lemma startTimer_schedules:
  assumes "startTimer h s = Inr s'"
  shows "scheduledBell s' = Some [528, 396, 639]"
    "standing s' = (if scheduledBell s = None then standing s + 1 else standing s)"
proof -
  from assms obtain s1 where s1: "initAudio h s = Inr s1"
    by (auto simp: startTimer_def split: sum.splits)
  note f = initAudio_fields [OF s1]
  have s': "s' = (let s4 = scheduleBell (startKeepAlive
                      (s1\<lparr> isRunning := True, endTime := Some (now h + remaining s1 * 1000),
                           toggleText := ''Pause'' \<rparr>))
                  in (snd (setInterval s4))\<lparr> interval := Some (fst (setInterval s4)) \<rparr>)"
    using assms s1 by (simp add: startTimer_def Let_def split: prod.splits)
  show "scheduledBell s' = Some [528, 396, 639]"
    "standing s' = (if scheduledBell s = None then standing s + 1 else standing s)"
    by (simp_all add: s' Let_def setInterval_def f scheduledBell_scheduleBell
          standing_scheduleBell)
qed

lemma stopTimer_standing:
  "standing (stopTimer s) = (if scheduledBell s = None then standing s else standing s - 1)"
  by (simp add: stopTimer_def Let_def standing_cancelScheduledBell)

lemma resetTimer_schedule:
  "scheduledBell (resetTimer s) = None"
  "standing (resetTimer s) = (if scheduledBell s = None then standing s else standing s - 1)"
  by (simp_all add: resetTimer_def Let_def stopTimer_standing)

lemma startTimer_ok: "audioContext s \<or> audioSupported h \<Longrightarrow> \<exists>s'. startTimer h s = Inr s'"
  using initAudio_ok [of s h] by (auto simp: startTimer_def Let_def split: prod.splits)

text \<open>Where the host has no audio at all, the timer of \<^verbatim>\<open>script.js\<close> does not start.\<close>

lemma startTimer_without_audio:
  "\<not> audioContext s \<Longrightarrow> \<not> audioSupported h \<Longrightarrow> startTimer h s = Inl TypeError"
  by (simp add: startTimer_def initAudio_def)

lemma adjustTime_cases:
  "adjustTime type delta s = s \<or>
   (\<exists>n\<ge>5. adjustTime type delta s = updateDisplay (s\<lparr> duration := n, remaining := n \<rparr>))"
proof (cases "isRunning s")
  case True
  then show ?thesis by (simp add: adjustTime_def)
next
  case False
  obtain m c where mc:
    "(if type = ''min'' then (max 0 (min 60 (duration s div 60 + delta)), js_rem (duration s) 60)
      else if js_rem (duration s) 60 + delta \<ge> 60 then (min 60 (duration s div 60 + 1), 0)
      else if js_rem (duration s) 60 + delta < 0 then (max 0 (duration s div 60 - 1), 55)
      else (duration s div 60, js_rem (duration s) 60 + delta)) = (m, c)"
    by fastforce
  have "adjustTime type delta s =
          (if m * 60 + c \<ge> 5
           then updateDisplay (s\<lparr> duration := m * 60 + c, remaining := m * 60 + c \<rparr>)
           else s)"
    using False mc unfolding adjustTime_def Let_def by simp
  then show ?thesis by (cases "m * 60 + c \<ge> 5") auto
qed

lemma adjustTime_fields [simp]:
  "isRunning (adjustTime type delta s) = isRunning s"
  "endTime (adjustTime type delta s) = endTime s"
  "interval (adjustTime type delta s) = interval s"
  "timers (adjustTime type delta s) = timers s"
  "audio (adjustTime type delta s) = audio s"
  using adjustTime_cases [of type delta s] by auto

lemma adjustTime_script [simp]:
  "audioContext (adjustTime type delta s) = audioContext s"
  "scheduledBell (adjustTime type delta s) = scheduledBell s"
  using adjustTime_cases [of type delta s] by auto

lemma adjustTime_bounds:
  "5 \<le> duration s \<Longrightarrow> 5 \<le> duration (adjustTime type delta s)"
  "0 \<le> remaining s \<Longrightarrow> 0 \<le> remaining (adjustTime type delta s)"
  using adjustTime_cases [of type delta s] by auto

lemma tick_bounds:
  "duration (tick h s) = duration s"
  "5 \<le> duration s \<Longrightarrow> 0 \<le> remaining (tick h s)"
proof -
  show "duration (tick h s) = duration s"
    by (cases "to_number (endTime s) \<le> now h") (simp_all add: tick_expired tick_pending)
  show "0 \<le> remaining (tick h s)" if "5 \<le> duration s"
    using that by (cases "to_number (endTime s) \<le> now h") (simp_all add: tick_expired tick_pending)
qed

lemma apply_op_bounds:
  assumes "5 \<le> duration s" "0 \<le> remaining s"
  shows "5 \<le> duration (apply_op x s) \<and> 0 \<le> remaining (apply_op x s)"
proof (cases x)
  case (Start h)
  then show ?thesis using assms by (auto simp: startTimer_fields split: sum.splits)
next
  case Stop
  then show ?thesis using assms by simp
next
  case (Tick h)
  then show ?thesis using assms by (simp add: tick_bounds)
next
  case (AdjustTime type delta)
  then show ?thesis using assms by (simp add: adjustTime_bounds)
next
  case Reset
  then show ?thesis using assms by simp
next
  case (InitAudio h)
  then show ?thesis using assms by (auto simp: initAudio_fields split: sum.splits)
qed

lemma apply_ops_bounds:
  "5 \<le> duration s \<Longrightarrow> 0 \<le> remaining s \<Longrightarrow>
   5 \<le> duration (apply_ops xs s) \<and> 0 \<le> remaining (apply_ops xs s)"
proof (induction xs arbitrary: s)
  case Nil
  then show ?case by simp
next
  case (Cons x xs)
  from apply_op_bounds [OF Cons.prems, of x] Cons.IH [of "apply_op x s"]
  show ?case by simp
qed

section \<open>The wiring is an invariant of the page\<close>

lemma wired_initial: "wired initial"
  by (simp add: wired_def initial_def)

lemma wired_stop: "wired s \<Longrightarrow> wired (stopTimer s)"
  by (simp add: wired_def split: option.splits)

lemma wired_reset: "wired s \<Longrightarrow> wired (resetTimer s)"
  by (simp add: wired_def resetTimer_schedule split: option.splits)

lemma wired_adjust: "wired s \<Longrightarrow> wired (adjustTime type delta s)"
  by (auto simp: wired_def)

lemma wired_start: "wired s \<Longrightarrow> \<not> isRunning s \<Longrightarrow> startTimer h s = Inr s' \<Longrightarrow> wired s'"
  by (simp add: wired_def startTimer_fields startTimer_schedules)

lemma wired_initAudio: "wired s \<Longrightarrow> initAudio h s = Inr s' \<Longrightarrow> wired s'"
  by (auto simp: wired_def initAudio_fields)

lemma wired_tick: "wired s \<Longrightarrow> wired (tick h s)"
proof (cases "to_number (endTime s) \<le> now h")
  case True
  assume "wired s"
  then show ?thesis by (simp add: wired_def tick_expired [OF True] split: option.splits)
next
  case False
  assume "wired s"
  then show ?thesis using False by (auto simp: wired_def tick_pending)
qed

lemma wired_dispatch:
  assumes "wired s"
  shows "wired (dispatch h ev s)"
proof (cases ev)
  case ToggleClick
  then show ?thesis
    using assms wired_start [OF assms, of h]
    by (auto simp: dispatch_def wired_stop split: sum.splits)
next
  case (VisibilityChange visible)
  then show ?thesis
    using assms wired_tick [OF wired_initAudio [OF assms], of h _ h]
    by (auto simp: dispatch_def split: sum.splits)
next
  case (IntervalFire k)
  then show ?thesis using assms by (simp add: dispatch_def wired_tick)
qed (use assms in \<open>simp_all add: dispatch_def wired_reset wired_adjust\<close>)

lemma wired_run: "wired s \<Longrightarrow> wired (run tr s)"
  by (induction tr arbitrary: s) (auto simp: wired_dispatch)

lemma idle_triggers:
  "\<not> isRunning s \<Longrightarrow> timers s = [] \<Longrightarrow> triggers_only tr \<Longrightarrow> run tr s = s"
proof (induction tr)
  case Nil
  then show ?case by simp
next
  case (Cons p tr)
  obtain h ev where p: "p = (h, ev)" by (cases p)
  from Cons.prems p have "is_trigger ev" "triggers_only tr"
    by (simp_all add: triggers_only_def)
  moreover from \<open>is_trigger ev\<close> Cons.prems have "dispatch h ev s = s"
    by (cases ev) (simp_all add: dispatch_def)
  ultimately show ?case using Cons p by simp
qed

section \<open>Adjusting seconds on the five-second grid\<close>

lemma grid_carry:
  fixes d :: int
  assumes "5 dvd d" "60 \<le> d mod 60 + 5"
  shows "d mod 60 = 55"
proof -
  have "5 dvd d mod 60" using assms(1) by (simp add: dvd_mod_iff)
  then obtain j where j: "d mod 60 = 5 * j" by (auto simp: dvd_def)
  have "0 \<le> d mod 60" "d mod 60 < 60" by simp_all
  with j assms(2) have "j = 11" by linarith
  with j show ?thesis by simp
qed

lemma grid_borrow:
  fixes d :: int
  assumes "5 dvd d" "d mod 60 - 5 < 0"
  shows "d mod 60 = 0"
proof -
  have "5 dvd d mod 60" using assms(1) by (simp add: dvd_mod_iff)
  then obtain j where j: "d mod 60 = 5 * j" by (auto simp: dvd_def)
  have "0 \<le> d mod 60" by simp
  with j assms(2) have "j = 0" by linarith
  with j show ?thesis by simp
qed

lemma adjustTime_sec:
  assumes "\<not> isRunning s" "0 \<le> duration s"
  obtains m c where
    "(m, c) = (if 60 \<le> duration s mod 60 + delta then (min 60 (duration s div 60 + 1), 0)
               else if duration s mod 60 + delta < 0 then (max 0 (duration s div 60 - 1), 55)
               else (duration s div 60, duration s mod 60 + delta))"
    "adjustTime ''sec'' delta s =
       (if 5 \<le> m * 60 + c
        then updateDisplay (s\<lparr> duration := m * 60 + c, remaining := m * 60 + c \<rparr>)
        else s)"
proof -
  obtain m c where mc:
    "(if 60 \<le> js_rem (duration s) 60 + delta then (min 60 (duration s div 60 + 1), 0)
      else if js_rem (duration s) 60 + delta < 0 then (max 0 (duration s div 60 - 1), 55)
      else (duration s div 60, js_rem (duration s) 60 + delta)) = (m, c)"
    by fastforce
  have "adjustTime ''sec'' delta s =
          (if 5 \<le> m * 60 + c
           then updateDisplay (s\<lparr> duration := m * 60 + c, remaining := m * 60 + c \<rparr>)
           else s)"
    using assms(1) mc unfolding adjustTime_def Let_def by simp
  moreover have "(m, c) = (if 60 \<le> duration s mod 60 + delta then (min 60 (duration s div 60 + 1), 0)
               else if duration s mod 60 + delta < 0 then (max 0 (duration s div 60 - 1), 55)
               else (duration s div 60, duration s mod 60 + delta))"
    using mc [symmetric] unfolding js_rem_nonneg [OF assms(2)] .
  ultimately show thesis using that by blast
qed

lemma sec_up_grid:
  assumes "\<not> isRunning s" "5 dvd duration s" "0 \<le> duration s" "duration s + 5 \<le> 3600"
  shows "adjustTime ''sec'' 5 s =
         updateDisplay (s\<lparr> duration := duration s + 5, remaining := duration s + 5 \<rparr>)"
proof -
  let ?d = "duration s"
  from adjustTime_sec [OF assms(1,3), of 5] obtain m c where
    mc: "(m, c) = (if 60 \<le> ?d mod 60 + 5 then (min 60 (?d div 60 + 1), 0)
               else if ?d mod 60 + 5 < 0 then (max 0 (?d div 60 - 1), 55)
               else (?d div 60, ?d mod 60 + 5))"
    and adj: "adjustTime ''sec'' 5 s =
       (if 5 \<le> m * 60 + c
        then updateDisplay (s\<lparr> duration := m * 60 + c, remaining := m * 60 + c \<rparr>)
        else s)"
    by blast
  have split: "?d = ?d div 60 * 60 + ?d mod 60" by simp
  have "m * 60 + c = ?d + 5"
  proof (cases "60 \<le> ?d mod 60 + 5")
    case True
    from grid_carry [OF assms(2) True] have c55: "?d mod 60 = 55" .
    have "?d div 60 + 1 \<le> 60" using assms(4) split c55 by linarith
    then have "m = ?d div 60 + 1" "c = 0" using mc True by simp_all
    then show ?thesis using split c55 by linarith
  next
    case False
    moreover have "\<not> ?d mod 60 + 5 < 0" using pos_mod_sign [of 60 ?d] by linarith
    ultimately have "m = ?d div 60" "c = ?d mod 60 + 5" using mc by simp_all
    then show ?thesis using split by linarith
  qed
  then show ?thesis using adj assms(3) by simp
qed

lemma sec_down_grid:
  assumes "\<not> isRunning s" "5 dvd duration s" "10 \<le> duration s"
  shows "adjustTime ''sec'' (- 5) s =
         updateDisplay (s\<lparr> duration := duration s - 5, remaining := duration s - 5 \<rparr>)"
proof -
  let ?d = "duration s"
  have nonneg: "0 \<le> ?d" using assms(3) by simp
  from adjustTime_sec [OF assms(1) nonneg, of "- 5"] obtain m c where
    mc: "(m, c) = (if 60 \<le> ?d mod 60 + (- 5) then (min 60 (?d div 60 + 1), 0)
               else if ?d mod 60 + (- 5) < 0 then (max 0 (?d div 60 - 1), 55)
               else (?d div 60, ?d mod 60 + (- 5)))"
    and adj: "adjustTime ''sec'' (- 5) s =
       (if 5 \<le> m * 60 + c
        then updateDisplay (s\<lparr> duration := m * 60 + c, remaining := m * 60 + c \<rparr>)
        else s)"
    by blast
  have split: "?d = ?d div 60 * 60 + ?d mod 60" by simp
  have small: "\<not> 60 \<le> ?d mod 60 + (- 5)" using pos_mod_bound [of 60 ?d] by linarith
  have "m * 60 + c = ?d - 5"
  proof (cases "?d mod 60 + (- 5) < 0")
    case True
    then have "?d mod 60 - 5 < 0" by simp
    from grid_borrow [OF assms(2) this] have c0: "?d mod 60 = 0" .
    have "1 \<le> ?d div 60" using assms(3) split c0 by linarith
    then have "m = ?d div 60 - 1" "c = 55" using mc True small by simp_all
    then show ?thesis using split c0 by linarith
  next
    case False
    then have "m = ?d div 60" "c = ?d mod 60 + (- 5)" using mc small by simp_all
    then show ?thesis using split by linarith
  qed
  then show ?thesis using adj assms(3) by simp
qed

lemma sec_down_floor:
  assumes "\<not> isRunning s" "duration s = 5"
  shows "adjustTime ''sec'' (- 5) s = s"
  using assms by (simp add: adjustTime_def Let_def js_rem_def)

section \<open>The durations the buttons reach\<close>

lemma adjustTime_idle:
  assumes "\<not> isRunning s" "0 \<le> duration s"
  obtains m c where
    "(m, c) = (if type = ''min'' then (max 0 (min 60 (duration s div 60 + delta)), duration s mod 60)
               else if 60 \<le> duration s mod 60 + delta then (min 60 (duration s div 60 + 1), 0)
               else if duration s mod 60 + delta < 0 then (max 0 (duration s div 60 - 1), 55)
               else (duration s div 60, duration s mod 60 + delta))"
    "adjustTime type delta s =
       (if 5 \<le> m * 60 + c
        then updateDisplay (s\<lparr> duration := m * 60 + c, remaining := m * 60 + c \<rparr>)
        else s)"
proof -
  obtain m c where mc:
    "(if type = ''min'' then (max 0 (min 60 (duration s div 60 + delta)), js_rem (duration s) 60)
      else if 60 \<le> js_rem (duration s) 60 + delta then (min 60 (duration s div 60 + 1), 0)
      else if js_rem (duration s) 60 + delta < 0 then (max 0 (duration s div 60 - 1), 55)
      else (duration s div 60, js_rem (duration s) 60 + delta)) = (m, c)"
    by fastforce
  have "adjustTime type delta s =
          (if 5 \<le> m * 60 + c
           then updateDisplay (s\<lparr> duration := m * 60 + c, remaining := m * 60 + c \<rparr>)
           else s)"
    using assms(1) mc unfolding adjustTime_def Let_def by simp
  moreover have "(m, c) = (if type = ''min'' then (max 0 (min 60 (duration s div 60 + delta)), duration s mod 60)
               else if 60 \<le> duration s mod 60 + delta then (min 60 (duration s div 60 + 1), 0)
               else if duration s mod 60 + delta < 0 then (max 0 (duration s div 60 - 1), 55)
               else (duration s div 60, duration s mod 60 + delta))"
    using mc [symmetric] unfolding js_rem_nonneg [OF assms(2)] .
  ultimately show thesis using that by blast
qed

lemma adjustTime_on_grid:
  assumes grid: "on_grid (duration s)" and delta: "5 dvd delta \<or> type = ''min''"
  shows "on_grid (duration (adjustTime type delta s))"
proof (cases "isRunning s")
  case True
  then show ?thesis using grid by (simp add: adjustTime_def)
next
  case False
  let ?d = "duration s"
  have d: "5 \<le> ?d" "?d \<le> 3655" "5 dvd ?d" using grid by (simp_all add: on_grid_def)
  then have nonneg: "0 \<le> ?d" by simp
  from adjustTime_idle [OF False nonneg, of type delta] obtain m c where
    mc: "(m, c) = (if type = ''min'' then (max 0 (min 60 (?d div 60 + delta)), ?d mod 60)
               else if 60 \<le> ?d mod 60 + delta then (min 60 (?d div 60 + 1), 0)
               else if ?d mod 60 + delta < 0 then (max 0 (?d div 60 - 1), 55)
               else (?d div 60, ?d mod 60 + delta))"
    and adj: "adjustTime type delta s =
       (if 5 \<le> m * 60 + c
        then updateDisplay (s\<lparr> duration := m * 60 + c, remaining := m * 60 + c \<rparr>)
        else s)"
    by blast
  have c5: "5 dvd ?d mod 60" using d(3) by (simp add: dvd_mod_iff)
  then obtain j where j: "?d mod 60 = 5 * j" by (auto simp: dvd_def)
  have "0 \<le> ?d mod 60" "?d mod 60 < 60" by simp_all
  with j have "j < 12" by linarith
  then have "j \<le> 11" by simp
  with j have c55: "?d mod 60 \<le> 55" by linarith
  have split: "?d = ?d div 60 * 60 + ?d mod 60" by simp
  have m60: "0 \<le> ?d div 60" "?d div 60 \<le> 60"
    using d split \<open>0 \<le> ?d mod 60\<close> \<open>?d mod 60 < 60\<close> by linarith+
  have m: "0 \<le> m" "m \<le> 60"
    using mc m60 by (auto split: if_splits)
  have "5 dvd delta" if "type \<noteq> ''min''" using that delta by blast
  then have c: "0 \<le> c" "5 dvd c" "c < 60"
    using mc c5 c55 \<open>0 \<le> ?d mod 60\<close> by (auto split: if_splits)
  from c(2) obtain i where i: "c = 5 * i" by (auto simp: dvd_def)
  with c have "i < 12" by linarith
  then have "i \<le> 11" by simp
  with i have "c \<le> 55" by linarith
  have "5 dvd m * 60 + c" using c(2) by simp
  moreover have "m * 60 + c \<le> 3655" using m \<open>c \<le> 55\<close> by linarith
  ultimately have "on_grid (m * 60 + c)" if "5 \<le> m * 60 + c"
    using that by (simp add: on_grid_def)
  then show ?thesis using adj grid by (cases "5 \<le> m * 60 + c") simp_all
qed

lemma duration_dispatch:
  "duration (dispatch h ev s) =
     (case ev of
        MinUpClick \<Rightarrow> duration (adjustTime ''min'' 1 s)
      | MinDownClick \<Rightarrow> duration (adjustTime ''min'' (- 1) s)
      | SecUpClick \<Rightarrow> duration (adjustTime ''sec'' 5 s)
      | SecDownClick \<Rightarrow> duration (adjustTime ''sec'' (- 5) s)
      | _ \<Rightarrow> duration s)"
  by (cases ev)
     (auto simp: dispatch_def tick_bounds startTimer_fields initAudio_fields split: sum.splits)

lemma dispatch_on_grid: "on_grid (duration s) \<Longrightarrow> on_grid (duration (dispatch h ev s))"
  by (cases ev) (simp_all add: duration_dispatch adjustTime_on_grid)

lemma run_on_grid: "on_grid (duration s) \<Longrightarrow> on_grid (duration (run tr s))"
  by (induction tr arbitrary: s) (auto simp: dispatch_on_grid)

lemma page_duration_on_grid: "on_grid (duration (run tr initial))"
  by (rule run_on_grid) (simp add: on_grid_def initial_def)

section \<open>Concrete runs\<close>

lemmas run_script = dispatch_def startTimer_def initAudio_def startKeepAlive_def scheduleBell_def
  cancelScheduledBell_def setInterval_def tick_def to_number_def updateDisplay_def js_rem_def
  stopTimer_def cancelHeartbeat_def clearInterval_def stopKeepAlive_def playBellNow_def
  playBellTones_def resetTimer_def Let_def

lemma started_value:
  "started = \<lparr> duration = 600, remaining = 600, endTime = Some 600000, isRunning = True,
      interval = Some 1, toggleText = ''Pause'', minutesShown = 10, secondsShown = 0,
      audio = [CreateContext, KeepAliveStart, ScheduleTones 600], timers = [1], issued = 1,
      audioContext = True, keepAliveAudio = True, scheduledBell = Some [528, 396, 639] \<rparr>"
  by (simp add: started_def at_ms_def initial_def run_script)

lemma observed_value:
  "observed = \<lparr> duration = 600, remaining = 599, endTime = Some 600000, isRunning = True,
      interval = Some 1, toggleText = ''Pause'', minutesShown = 9, secondsShown = 59,
      audio = [CreateContext, KeepAliveStart, ScheduleTones 600], timers = [1], issued = 1,
      audioContext = True, keepAliveAudio = True, scheduledBell = Some [528, 396, 639] \<rparr>"
  by (simp add: observed_def at_ms_def initial_def run_script)

lemma paused_value:
  "paused = \<lparr> duration = 600, remaining = 597, endTime = None, isRunning = False,
      interval = None, toggleText = ''Start'', minutesShown = 9, secondsShown = 57,
      audio = [CreateContext, KeepAliveStart, ScheduleTones 600, StopScheduledTones, KeepAliveStop],
      timers = [], issued = 1,
      audioContext = True, keepAliveAudio = False, scheduledBell = None \<rparr>"
  by (simp add: paused_def at_ms_def initial_def run_script)

lemma expired_value:
  "expired = \<lparr> duration = 600, remaining = 600, endTime = Some 600000, isRunning = False,
      interval = None, toggleText = ''Start'', minutesShown = 10, secondsShown = 0,
      audio = [CreateContext, KeepAliveStart, ScheduleTones 600, KeepAliveStop, BellTones],
      timers = [], issued = 1,
      audioContext = True, keepAliveAudio = False, scheduledBell = None \<rparr>"
  by (simp add: expired_def at_ms_def initial_def run_script)

text \<open>Called again by hand after the time is up, the \<^verbatim>\<open>tick\<close> of \<^verbatim>\<open>script.js\<close> rings
  again: it reads the stale \<^verbatim>\<open>endTime\<close> and does not look at \<^verbatim>\<open>isRunning\<close>.\<close>

lemma tick_after_expiry_rings_again:
  "\<not> isRunning expired \<and> rung expired = 1 \<and> rung (tick (at_ms 600001) expired) = 2"
  by (simp add: expired_value at_ms_def run_script rung_def rings_now_def)

lemma run_append: "run (xs @ ys) s = run ys (run xs s)"
  by (induction xs arbitrary: s) auto

lemma min_up_idle:
  assumes idle: "\<not> isRunning s" and d: "0 \<le> duration s" "duration s < 3600"
  shows "dispatch h MinUpClick s =
         updateDisplay (s\<lparr> duration := duration s + 60, remaining := duration s + 60 \<rparr>)"
proof -
  have m: "max 0 (min 60 (duration s div 60 + 1)) = duration s div 60 + 1"
    using d by simp
  have sum: "(duration s div 60 + 1) * 60 + duration s mod 60 = duration s + 60"
    by (simp add: algebra_simps)
  show ?thesis
    using idle d by (simp add: dispatch_def adjustTime_def Let_def js_rem_nonneg m sum)
qed

lemma min_ups:
  "\<not> isRunning s \<Longrightarrow> 0 \<le> duration s \<Longrightarrow> duration s + 60 * int n \<le> 3600 \<Longrightarrow>
   duration (run (replicate n (h, MinUpClick)) s) = duration s + 60 * int n \<and>
   \<not> isRunning (run (replicate n (h, MinUpClick)) s)"
proof (induction n arbitrary: s)
  case 0
  then show ?case by simp
next
  case (Suc n)
  let ?s = "dispatch h MinUpClick s"
  have step: "?s = updateDisplay (s\<lparr> duration := duration s + 60, remaining := duration s + 60 \<rparr>)"
    using Suc.prems by (intro min_up_idle) auto
  have "\<not> isRunning ?s" "0 \<le> duration ?s" "duration ?s + 60 * int n \<le> 3600"
    using Suc.prems by (simp_all add: step)
  from Suc.IH [OF this] show ?case by (simp add: step)
qed

section \<open>The other variants\<close>

text \<open>The \<^verbatim>\<open>tick\<close> that checks \<^verbatim>\<open>isRunning\<close> does nothing on an idle timer, so however
  often it is called once the time is up, it ends the run and rings once.\<close>

lemma tick_el_idle: "\<not> isRunning s \<Longrightarrow> tick_el h s = s"
  by (simp add: tick_el_def)

lemma ticks_el_idle: "\<not> isRunning s \<Longrightarrow> ticks_el hs s = s"
  by (induction hs) (simp_all add: tick_el_idle)

lemma rung_playBell_el:
  "rung (playBell_el h s) =
     (if bellEl s \<or> bellWavUrl s \<or> audioSupported h then rung s + 1 else rung s)"
  by (simp add: playBell_el_def rung_def rings_now_def)

lemma updateDisplay_el [simp]:
  "bellEl (updateDisplay s) = bellEl s"
  "bellWavUrl (updateDisplay s) = bellWavUrl s"
  by (simp_all add: updateDisplay_def)

lemma playBell_el_fields [simp]:
  "duration (playBell_el h s) = duration s"
  "isRunning (playBell_el h s) = isRunning s"
  by (simp_all add: playBell_el_def)

lemma stopKeepAlive_el_fields [simp]:
  "duration (stopKeepAlive_el s) = duration s"
  "isRunning (stopKeepAlive_el s) = isRunning s"
  "bellEl (stopKeepAlive_el s) = bellEl s"
  "bellWavUrl (stopKeepAlive_el s) = bellWavUrl s"
  "rung (stopKeepAlive_el s) = rung s"
  by (simp_all add: stopKeepAlive_el_def rung_def rings_now_def)

lemma cancelHeartbeat_el [simp]:
  "bellEl (cancelHeartbeat s) = bellEl s"
  "bellWavUrl (cancelHeartbeat s) = bellWavUrl s"
  by (simp_all add: cancelHeartbeat_def clearInterval_def split: option.splits)

lemma tick_el_once:
  assumes "isRunning s" "endTime s = Some e" "e \<le> now h"
    and "bellEl s \<or> bellWavUrl s \<or> audioSupported h"
  shows "\<not> isRunning (tick_el h s) \<and> rung (tick_el h s) = rung s + 1 \<and>
         remaining (tick_el h s) = duration s \<and> ticks_el hs (tick_el h s) = tick_el h s"
proof -
  have le: "max 0 \<lceil>real_of_int (to_number (endTime s) - now h) / 1000\<rceil> \<le> 0"
    using assms(2,3) by (simp add: to_number_def observed_le_0_iff)
  have idle: "\<not> isRunning (tick_el h s)"
    using assms(1) le by (simp add: tick_el_def Let_def)
  have "rung (tick_el h s) = rung s + 1"
    using assms(1,4) le by (simp add: tick_el_def Let_def rung_playBell_el)
  moreover have "remaining (tick_el h s) = duration s"
    using assms(1) le by (simp add: tick_el_def Let_def)
  ultimately show ?thesis using idle ticks_el_idle [OF idle] by simp
qed

text \<open>The \<^verbatim>\<open>stopTimer\<close> that reads the clock leaves the remaining time as of the stop.\<close>

lemma stopTimer_wav_recomputes:
  assumes "isRunning s" "endTime s = Some e" "e \<noteq> 0"
  shows "remaining (stopTimer_wav h s) = max 0 \<lceil>real_of_int (e - now h) / 1000\<rceil> \<and>
         endTime (stopTimer_wav h s) = None \<and> \<not> isRunning (stopTimer_wav h s) \<and>
         interval (stopTimer_wav h s) = None \<and> \<not> timerAudio (stopTimer_wav h s)"
  using assms
  by (simp add: stopTimer_wav_def cleanupAudio_def truthy_def to_number_def Let_def
        cancelHeartbeat_def clearInterval_def split: option.splits)

section \<open>A run between its start and its end\<close>

lemma tick_still_running:
  assumes "isRunning (tick h s)"
  shows "isRunning s" "rung (tick h s) = rung s" "standing (tick h s) = standing s"
    "endTime (tick h s) = endTime s" "duration (tick h s) = duration s"
proof -
  have pending: "now h < to_number (endTime s)"
  proof (rule ccontr)
    assume "\<not> now h < to_number (endTime s)"
    then have "to_number (endTime s) \<le> now h" by simp
    from tick_expired(1) [OF this] assms show False by simp
  qed
  from assms show "isRunning s" "rung (tick h s) = rung s" "standing (tick h s) = standing s"
    "endTime (tick h s) = endTime s" "duration (tick h s) = duration s"
    by (simp_all add: tick_pending [OF pending])
qed

lemma quiet_step:
  assumes "keeps_run ev" "isRunning (dispatch h ev s)"
  shows "isRunning s \<and> rung (dispatch h ev s) = rung s \<and>
         standing (dispatch h ev s) = standing s \<and>
         endTime (dispatch h ev s) = endTime s \<and> duration (dispatch h ev s) = duration s"
proof (cases ev)
  case (VisibilityChange visible)
  show ?thesis
  proof (cases "visible \<and> isRunning s")
    case True
    show ?thesis
    proof (cases "initAudio h s")
      case (Inl e)
      then show ?thesis using VisibilityChange True assms by (simp add: dispatch_def)
    next
      case (Inr s1)
      note f = initAudio_fields [OF Inr]
      have d: "dispatch h ev s = tick h s1"
        using VisibilityChange True Inr by (simp add: dispatch_def)
      with assms have "isRunning (tick h s1)" by simp
      from tick_still_running [OF this] d f True show ?thesis by simp
    qed
  next
    case False
    then show ?thesis using VisibilityChange assms by (auto simp: dispatch_def)
  qed
next
  case (IntervalFire k)
  show ?thesis
  proof (cases "k \<in> set (timers s)")
    case True
    then have d: "dispatch h ev s = tick h s" using IntervalFire by (simp add: dispatch_def)
    with assms have "isRunning (tick h s)" by simp
    from tick_still_running [OF this] d show ?thesis by simp
  next
    case False
    then show ?thesis using IntervalFire assms by (simp add: dispatch_def)
  qed
next
  case MinUpClick
  with assms have "isRunning s" by (simp add: dispatch_def)
  then show ?thesis using MinUpClick by (simp add: dispatch_def adjustTime_def)
next
  case MinDownClick
  with assms have "isRunning s" by (simp add: dispatch_def)
  then show ?thesis using MinDownClick by (simp add: dispatch_def adjustTime_def)
next
  case SecUpClick
  with assms have "isRunning s" by (simp add: dispatch_def)
  then show ?thesis using SecUpClick by (simp add: dispatch_def adjustTime_def)
next
  case SecDownClick
  with assms have "isRunning s" by (simp add: dispatch_def)
  then show ?thesis using SecDownClick by (simp add: dispatch_def adjustTime_def)
qed (use assms in simp_all)

lemma quiet_run:
  assumes "uninterrupted tr" "isRunning (run tr s)"
  shows "isRunning s \<and> rung (run tr s) = rung s \<and> standing (run tr s) = standing s \<and>
         endTime (run tr s) = endTime s \<and> duration (run tr s) = duration s"
  using assms
proof (induction tr arbitrary: s)
  case Nil
  then show ?case by simp
next
  case (Cons p tr)
  obtain h ev where p: "p = (h, ev)" by (cases p)
  from Cons.prems p have q: "keeps_run ev" "uninterrupted tr"
    and r: "isRunning (run tr (dispatch h ev s))"
    by (simp_all add: uninterrupted_def)
  from Cons.IH [OF q(2) r] have ih: "isRunning (dispatch h ev s)"
    "rung (run tr (dispatch h ev s)) = rung (dispatch h ev s)"
    "standing (run tr (dispatch h ev s)) = standing (dispatch h ev s)"
    "endTime (run tr (dispatch h ev s)) = endTime (dispatch h ev s)"
    "duration (run tr (dispatch h ev s)) = duration (dispatch h ev s)"
    by simp_all
  from quiet_step [OF q(1) ih(1)] ih p show ?case by simp
qed

lemma start_click:
  assumes "wired s0" "\<not> isRunning s0" "isRunning (dispatch h0 ToggleClick s0)"
  shows "endTime (dispatch h0 ToggleClick s0) = Some (now h0 + remaining s0 * 1000)"
    "rung (dispatch h0 ToggleClick s0) = rung s0"
    "standing (dispatch h0 ToggleClick s0) = standing s0 + 1"
    "duration (dispatch h0 ToggleClick s0) = duration s0"
proof -
  obtain s1 where s1: "startTimer h0 s0 = Inr s1"
    using assms(2,3) by (cases "startTimer h0 s0") (simp_all add: dispatch_def)
  then have d: "dispatch h0 ToggleClick s0 = s1" using assms(2) by (simp add: dispatch_def)
  have "scheduledBell s0 = None" using assms(1,2) by (auto simp: wired_def)
  with startTimer_fields [OF s1] startTimer_schedules [OF s1] d
  show "endTime (dispatch h0 ToggleClick s0) = Some (now h0 + remaining s0 * 1000)"
    "rung (dispatch h0 ToggleClick s0) = rung s0"
    "standing (dispatch h0 ToggleClick s0) = standing s0 + 1"
    "duration (dispatch h0 ToggleClick s0) = duration s0"
    by simp_all
qed

lemma late_trigger:
  assumes w: "wired s" and running: "isRunning s" "endTime s = Some e" and late: "e \<le> now h"
    and trigger: "ev = VisibilityChange True \<or> (\<exists>k. ev = IntervalFire k \<and> k \<in> set (timers s))"
  shows "\<not> isRunning (dispatch h ev s)" "rung (dispatch h ev s) = rung s + 1"
    "standing (dispatch h ev s) = standing s" "remaining (dispatch h ev s) = duration s"
    "duration (dispatch h ev s) = duration s" "timers (dispatch h ev s) = []"
proof -
  from w running obtain k where k: "interval s = Some k" "timers s = [k]" and ctx: "audioContext s"
    by (auto simp: wired_def)
  have tick_s: "\<not> isRunning (tick h s') \<and> rung (tick h s') = rung s + 1 \<and>
      standing (tick h s') = standing s \<and> remaining (tick h s') = duration s \<and>
      duration (tick h s') = duration s \<and> timers (tick h s') = []"
    if "endTime s' = endTime s" "audioContext s'" "rung s' = rung s" "duration s' = duration s"
       "interval s' = interval s" "timers s' = timers s" "standing s' = standing s" for s'
  proof -
    have "to_number (endTime s') \<le> now h" using that running late by (simp add: to_number_def)
    from tick_expired [OF this] show ?thesis using that k by simp
  qed
  from trigger consider "ev = VisibilityChange True" | j where "ev = IntervalFire j" "j \<in> set (timers s)"
    by blast
  then have "\<not> isRunning (dispatch h ev s) \<and> rung (dispatch h ev s) = rung s + 1 \<and>
      standing (dispatch h ev s) = standing s \<and> remaining (dispatch h ev s) = duration s \<and>
      duration (dispatch h ev s) = duration s \<and> timers (dispatch h ev s) = []"
  proof cases
    case 1
    from initAudio_ok [of s h] ctx obtain s1 where s1: "initAudio h s = Inr s1" by blast
    note f = initAudio_fields [OF s1]
    have "dispatch h ev s = tick h s1" using 1 running s1 by (simp add: dispatch_def)
    with tick_s [of s1] f show ?thesis by simp
  next
    case 2
    then have "dispatch h ev s = tick h s" by (simp add: dispatch_def)
    with tick_s [of s] ctx show ?thesis by simp
  qed
  then show "\<not> isRunning (dispatch h ev s)" "rung (dispatch h ev s) = rung s + 1"
    "standing (dispatch h ev s) = standing s" "remaining (dispatch h ev s) = duration s"
    "duration (dispatch h ev s) = duration s" "timers (dispatch h ev s) = []"
    by simp_all
qed

section \<open>The claims\<close>

subsection \<open>Completion\<close>

text \<open>
  C1, as stated, fails: a run of \<^verbatim>\<open>script.js\<close> that reaches its end has asked for the
  completion tones twice. The default timer, started at \<open>0\<close> and first looked at by the
  heartbeat at \<open>600000\<close>, is idle again; of its five audio requests two are for
  completion tones, the set scheduled at the start, which nothing stopped, and the set
  \<^verbatim>\<open>tick\<close> plays as a fallback.
\<close>

theorem completed_run_asks_twice:
  "\<not> isRunning expired \<and>
   audio expired = [CreateContext, KeepAliveStart, ScheduleTones 600, KeepAliveStop, BellTones] \<and>
   rung expired = 1 \<and> standing expired = 1 \<and> fired initial = 0 \<and> fired expired = 2"
  by (simp add: expired_value initial_def fired_def rung_def rings_now_def standing_def)

text \<open>
  C1, amended. Take any run of the timer of \<^verbatim>\<open>script.js\<close>: a click on the toggle in an
  idle state the page has reached, followed by any heartbeats, visibility changes and
  adjustment clicks that leave the timer running. Its end timestamp is the one set at the
  start. Once the clock has reached it, the first trigger that calls \<^verbatim>\<open>tick\<close> (the
  heartbeat of a live interval timer, or a change of visibility to visible) takes the
  timer from running to idle with \<open>remaining\<close> back at \<open>duration\<close>, and over the whole run
  \<^verbatim>\<open>tick\<close> has asked for the bell once; however many observations were skipped before,
  and whatever triggers follow, at whatever clock values, the state does not change
  again. The tones scheduled at the start are not stopped, so over the whole run the
  completion tones have been asked for twice.
\<close>

theorem run_ends_once_and_asks_twice:
  assumes reach: "s0 = run evs initial"
    and idle: "\<not> isRunning s0"
    and run: "s = run tr (dispatch h0 ToggleClick s0)" "uninterrupted tr" "isRunning s"
    and late: "now h0 + remaining s0 * 1000 \<le> now h"
    and trigger: "ev = VisibilityChange True \<or> (\<exists>k. ev = IntervalFire k \<and> k \<in> set (timers s))"
  shows "endTime s = Some (now h0 + remaining s0 * 1000) \<and>
         \<not> isRunning (dispatch h ev s) \<and>
         remaining (dispatch h ev s) = duration (dispatch h ev s) \<and>
         rung (dispatch h ev s) = rung s0 + 1 \<and>
         standing (dispatch h ev s) = standing s0 + 1 \<and>
         fired (dispatch h ev s) = fired s0 + 2 \<and>
         (\<forall>tr'. triggers_only tr' \<longrightarrow> run tr' (dispatch h ev s) = dispatch h ev s)"
proof -
  let ?s1 = "dispatch h0 ToggleClick s0"
  have w0: "wired s0" using reach wired_run [OF wired_initial] by simp
  have w: "wired s" using run(1) w0 by (simp add: wired_run wired_dispatch)
  from quiet_run [OF run(2)] run(1,3)
  have q: "isRunning ?s1" "rung s = rung ?s1" "standing s = standing ?s1"
    "endTime s = endTime ?s1" "duration s = duration ?s1"
    by simp_all
  note st = start_click [OF w0 idle q(1)]
  have e: "endTime s = Some (now h0 + remaining s0 * 1000)" using q st by simp
  note lt = late_trigger [OF w run(3) e late trigger]
  have quiet: "run tr' (dispatch h ev s) = dispatch h ev s" if "triggers_only tr'" for tr'
    using idle_triggers [OF lt(1) lt(6) that] .
  have "rung (dispatch h ev s) = rung s0 + 1" "standing (dispatch h ev s) = standing s0 + 1"
    using lt q st by simp_all
  then have "fired (dispatch h ev s) = fired s0 + 2" by (simp add: fired_def)
  with e lt quiet \<open>rung (dispatch h ev s) = rung s0 + 1\<close>
    \<open>standing (dispatch h ev s) = standing s0 + 1\<close>
  show ?thesis by simp
qed

text \<open>The default timer: started at \<open>0\<close>, observed once at \<open>1004\<close>, then not until the ten
  minutes are over; two more triggers follow.\<close>

theorem run_ends_once_and_asks_twice_witness:
  "\<not> isRunning initial \<and> isRunning observed \<and> 1 \<in> set (timers observed) \<and>
   \<not> isRunning (dispatch (at_ms 600000) (IntervalFire 1) observed) \<and>
   rung (dispatch (at_ms 600000) (IntervalFire 1) observed) = 1 \<and>
   fired (dispatch (at_ms 600000) (IntervalFire 1) observed) = 2 \<and>
   run [(at_ms 600001, IntervalFire 1), (at_ms 600002, VisibilityChange True)]
     (dispatch (at_ms 600000) (IntervalFire 1) observed) =
   dispatch (at_ms 600000) (IntervalFire 1) observed"
proof -
  have reach: "initial = run [] initial" by simp
  have idle: "\<not> isRunning initial" by (simp add: initial_def)
  have run: "observed = run [(at_ms 1004, IntervalFire 1)] (dispatch (at_ms 0) ToggleClick initial)"
    "uninterrupted [(at_ms 1004, IntervalFire 1)]" "isRunning observed"
    by (simp add: observed_def, simp add: uninterrupted_def, simp add: observed_value)
  have late: "now (at_ms 0) + remaining initial * 1000 \<le> now (at_ms 600000)"
    by (simp add: at_ms_def initial_def)
  have live: "1 \<in> set (timers observed)" by (simp add: observed_value)
  then have trigger: "IntervalFire 1 = VisibilityChange True \<or>
      (\<exists>k. IntervalFire 1 = IntervalFire k \<and> k \<in> set (timers observed))"
    by simp
  note once = run_ends_once_and_asks_twice [OF reach idle run late trigger]
  have "triggers_only [(at_ms 600001, IntervalFire 1), (at_ms 600002, VisibilityChange True)]"
    by (simp add: triggers_only_def)
  with once have quiet:
    "run [(at_ms 600001, IntervalFire 1), (at_ms 600002, VisibilityChange True)]
       (dispatch (at_ms 600000) (IntervalFire 1) observed) =
     dispatch (at_ms 600000) (IntervalFire 1) observed"
    by blast
  have zero: "rung initial = 0" "fired initial = 0"
    by (simp_all add: initial_def fired_def rung_def standing_def)
  from once zero have "rung (dispatch (at_ms 600000) (IntervalFire 1) observed) = 1"
    "fired (dispatch (at_ms 600000) (IntervalFire 1) observed) = 2"
    by simp_all
  with once idle run(3) live quiet show ?thesis by blast
qed

subsection \<open>Remaining time and duration\<close>

text \<open>
  C2, as stated, fails: an idle timer need not have \<open>remaining\<close> equal to \<open>duration\<close>.
  Started at \<open>0\<close>, observed at \<open>3000\<close> and paused at \<open>3500\<close>, the timer is idle with 597
  of its 600 seconds remaining.
\<close>

theorem paused_remaining_differs:
  "\<not> isRunning paused \<and> remaining paused = 597 \<and> duration paused = 600 \<and>
   remaining paused \<noteq> duration paused"
  by (simp add: paused_value)

text \<open>
  C2, amended. In every state the page reaches in which the timer runs, with end timestamp
  \<open>e\<close>, an observation (\<^verbatim>\<open>tick\<close>, or a change of visibility to visible) at a clock value
  before \<open>e\<close> leaves the timer running with \<open>remaining = max(0, ceil((e - now) / 1000))\<close>,
  and one at \<open>e\<close> or later leaves it idle with \<open>remaining = duration\<close>. A timer is also
  idle with \<open>remaining = duration\<close> after every reset and after every adjustment that
  changes the state.
\<close>

theorem remaining_after_observation:
  assumes "s = run evs initial" "isRunning s" "endTime s = Some e"
  shows "(now h < e \<longrightarrow>
            isRunning (tick h s) \<and>
            remaining (tick h s) = max 0 \<lceil>real_of_int (e - now h) / 1000\<rceil>) \<and>
         (e \<le> now h \<longrightarrow> \<not> isRunning (tick h s) \<and> remaining (tick h s) = duration (tick h s)) \<and>
         remaining (dispatch h (VisibilityChange True) s) = remaining (tick h s) \<and>
         isRunning (dispatch h (VisibilityChange True) s) = isRunning (tick h s) \<and>
         \<not> isRunning (resetTimer u) \<and> remaining (resetTimer u) = duration (resetTimer u) \<and>
         (adjustTime type delta u \<noteq> u \<longrightarrow>
            \<not> isRunning (adjustTime type delta u) \<and>
            remaining (adjustTime type delta u) = duration (adjustTime type delta u))"
proof -
  have "wired s" using assms(1) wired_run [OF wired_initial] by simp
  with assms(2) have ctx: "audioContext s" by (auto simp: wired_def)
  have e: "to_number (endTime s) = e" using assms by (simp add: to_number_def)
  have pending: "isRunning (tick h s) \<and>
       remaining (tick h s) = max 0 \<lceil>real_of_int (e - now h) / 1000\<rceil>" if "now h < e"
    using that assms e by (simp add: tick_pending)
  have expired: "\<not> isRunning (tick h s) \<and> remaining (tick h s) = duration (tick h s)"
    if "e \<le> now h"
    using that e by (simp add: tick_expired)
  from initAudio_ok [of s h] ctx obtain s1 where s1: "initAudio h s = Inr s1" by blast
  note f = initAudio_fields [OF s1]
  have vis: "dispatch h (VisibilityChange True) s = tick h s1"
    using assms s1 by (simp add: dispatch_def)
  have same: "remaining (tick h s1) = remaining (tick h s) \<and>
              isRunning (tick h s1) = isRunning (tick h s)"
  proof (cases "e \<le> now h")
    case True
    then have "to_number (endTime s1) \<le> now h" "to_number (endTime s) \<le> now h"
      using e f by simp_all
    then show ?thesis using f by (simp add: tick_expired)
  next
    case False
    then have "now h < to_number (endTime s1)" "now h < to_number (endTime s)"
      using e f by simp_all
    then show ?thesis using f by (simp add: tick_pending)
  qed
  have adj: "\<not> isRunning (adjustTime type delta u) \<and>
             remaining (adjustTime type delta u) = duration (adjustTime type delta u)"
    if "adjustTime type delta u \<noteq> u"
  proof -
    from that have "\<not> isRunning u" by (auto simp: adjustTime_def)
    with that adjustTime_cases [of type delta u] show ?thesis by auto
  qed
  show ?thesis using pending expired vis same adj by simp
qed

text \<open>The default timer started at \<open>0\<close>: observed after three seconds and observed when the
  time is up; and the paused timer, reset and set one minute longer.\<close>

theorem remaining_after_observation_witness:
  "isRunning started \<and> endTime started = Some 600000 \<and>
   isRunning (tick (at_ms 3000) started) \<and> remaining (tick (at_ms 3000) started) = 597 \<and>
   \<not> isRunning (tick (at_ms 600000) started) \<and> remaining (tick (at_ms 600000) started) = 600 \<and>
   remaining (dispatch (at_ms 3000) (VisibilityChange True) started) = 597 \<and>
   remaining (resetTimer paused) = 600 \<and>
   remaining (adjustTime ''min'' 1 paused) = 660"
proof -
  have reach: "started = run [(at_ms 0, ToggleClick)] initial" by (simp add: started_def)
  have hyps: "isRunning started" "endTime started = Some 600000"
    by (simp_all add: started_value)
  have longer: "duration (adjustTime ''min'' 1 paused) = 660"
    by (simp add: paused_value adjustTime_def js_rem_def)
  have changed: "adjustTime ''min'' 1 paused \<noteq> paused"
  proof
    assume "adjustTime ''min'' 1 paused = paused"
    then have "duration (adjustTime ''min'' 1 paused) = duration paused" by simp
    with longer show False by (simp add: paused_value)
  qed
  note early = remaining_after_observation [OF reach hyps, of "at_ms 3000" paused "''min''" 1]
  note late = remaining_after_observation [OF reach hyps, of "at_ms 600000" paused "''min''" 1]
  have "now (at_ms 3000) < 600000" by (simp add: at_ms_def)
  with early have "isRunning (tick (at_ms 3000) started)"
    "remaining (tick (at_ms 3000) started) =
       max 0 \<lceil>real_of_int (600000 - now (at_ms 3000)) / 1000\<rceil>"
    by blast+
  then have r1: "isRunning (tick (at_ms 3000) started)"
    "remaining (tick (at_ms 3000) started) = 597"
    by (simp_all add: at_ms_def)
  have "600000 \<le> now (at_ms 600000)" by (simp add: at_ms_def)
  with late have "\<not> isRunning (tick (at_ms 600000) started)"
    "remaining (tick (at_ms 600000) started) = duration (tick (at_ms 600000) started)"
    by blast+
  then have r2: "\<not> isRunning (tick (at_ms 600000) started)"
    "remaining (tick (at_ms 600000) started) = 600"
    by (simp_all add: tick_bounds started_value)
  from early r1 have r3: "remaining (dispatch (at_ms 3000) (VisibilityChange True) started) = 597"
    by simp
  from early have r4: "remaining (resetTimer paused) = 600"
    by (simp add: paused_value)
  from early changed longer have r5: "remaining (adjustTime ''min'' 1 paused) = 660"
    by simp
  from hyps r1 r2 r3 r4 r5 show ?thesis by blast
qed

subsection \<open>Adjusting the duration\<close>

text \<open>
  C3, as stated, fails on each of its three examples: on a carry the code sets the seconds
  to \<open>0\<close> and on a borrow to \<open>55\<close>, whatever they were. From 0m58s, plus five gives
  1m00s; from 1m02s, minus five gives 0m55s; from 0m02s, minus five is accepted and gives
  0m55s.
\<close>

theorem seconds_snap_off_the_grid:
  "duration (adjustTime ''sec'' 5 (with_duration 58)) = 60 \<and>
   duration (adjustTime ''sec'' (- 5) (with_duration 62)) = 55 \<and>
   duration (adjustTime ''sec'' (- 5) (with_duration 2)) = 55"
  by (simp add: with_duration_def initial_def adjustTime_def Let_def js_rem_def)

text \<open>
  C3, amended. The buttons keep the duration a multiple of five seconds. For an idle timer
  whose duration is a multiple of five between 5 and 3600 seconds, plus five seconds adds
  five to the total wherever the result is at most 3600, carrying into the minutes at 55
  seconds (0m55s gives 1m00s); minus five seconds takes five off wherever the duration is
  at least ten, borrowing from the minutes at 0 seconds (1m00s gives 0m55s); and at 0m05s
  minus five is rejected and changes nothing. Duration and remaining move together.
\<close>

theorem seconds_carry_on_the_grid:
  assumes "\<not> isRunning s" "5 dvd duration s" "5 \<le> duration s" "duration s \<le> 3600"
  shows "(duration s + 5 \<le> 3600 \<longrightarrow>
            duration (adjustTime ''sec'' 5 s) = duration s + 5 \<and>
            remaining (adjustTime ''sec'' 5 s) = duration s + 5) \<and>
         (10 \<le> duration s \<longrightarrow>
            duration (adjustTime ''sec'' (- 5) s) = duration s - 5 \<and>
            remaining (adjustTime ''sec'' (- 5) s) = duration s - 5) \<and>
         (duration s = 5 \<longrightarrow> adjustTime ''sec'' (- 5) s = s)"
  using assms by (simp add: sec_up_grid sec_down_grid sec_down_floor)

theorem seconds_carry_on_the_grid_witness:
  "\<not> isRunning (with_duration 55) \<and> 5 dvd duration (with_duration 55) \<and>
   duration (adjustTime ''sec'' 5 (with_duration 55)) = 60 \<and>
   duration (adjustTime ''sec'' (- 5) (with_duration 60)) = 55 \<and>
   remaining (adjustTime ''sec'' (- 5) (with_duration 60)) = 55 \<and>
   adjustTime ''sec'' (- 5) (with_duration 5) = with_duration 5"
proof -
  have idle: "\<not> isRunning (with_duration d)" and d: "duration (with_duration d) = d" for d
    by (simp_all add: with_duration_def initial_def)
  have "(5::int) dvd 55" "(5::int) dvd 60" "(5::int) dvd 5" by simp_all
  then have grid: "5 dvd duration (with_duration 55)" "5 dvd duration (with_duration 60)"
    "5 dvd duration (with_duration 5)"
    by (simp_all only: d)
  have lo: "5 \<le> duration (with_duration 55)" "5 \<le> duration (with_duration 60)"
    "5 \<le> duration (with_duration 5)"
    and hi: "duration (with_duration 55) \<le> 3600" "duration (with_duration 60) \<le> 3600"
    "duration (with_duration 5) \<le> 3600"
    by (simp_all add: d)
  from seconds_carry_on_the_grid [OF idle grid(1) lo(1) hi(1)]
  have up: "duration (adjustTime ''sec'' 5 (with_duration 55)) = 60" by (simp add: d)
  from seconds_carry_on_the_grid [OF idle grid(2) lo(2) hi(2)]
  have down: "duration (adjustTime ''sec'' (- 5) (with_duration 60)) = 55"
    "remaining (adjustTime ''sec'' (- 5) (with_duration 60)) = 55"
    by (simp_all add: d)
  from seconds_carry_on_the_grid [OF idle grid(3) lo(3) hi(3)]
  have floor: "adjustTime ''sec'' (- 5) (with_duration 5) = with_duration 5" by (simp add: d)
  from idle grid(1) up down floor show ?thesis by blast
qed

text \<open>
  C4. The code caps the minutes at 60 and leaves the seconds free, so the total is not
  capped at 3600: fifty clicks on minute-up take the default timer to 60m00s, and one
  click on second-up takes it to 60m05s.
\<close>

theorem duration_passes_3600: "duration (run to_the_top initial) = 3605"
proof -
  have idle: "\<not> isRunning initial" "0 \<le> duration initial" "duration initial + 60 * int 50 \<le> 3600"
    by (simp_all add: initial_def)
  from min_ups [OF idle, of "at_ms 0"]
  have top: "duration (run (replicate 50 (at_ms 0, MinUpClick)) initial) = 3600"
    "\<not> isRunning (run (replicate 50 (at_ms 0, MinUpClick)) initial)"
    by (simp_all add: initial_def)
  have "adjustTime ''sec'' 5 s = updateDisplay (s\<lparr> duration := 3605, remaining := 3605 \<rparr>)"
    if "duration s = 3600" "\<not> isRunning s" for s :: scriptState
    using that by (simp add: adjustTime_def Let_def js_rem_def)
  from this [OF top] show ?thesis
    by (simp add: to_the_top_def run_append dispatch_def)
qed

subsection \<open>Calls in the wrong state\<close>

text \<open>
  C5, as stated, fails for the \<^verbatim>\<open>tick\<close> of \<^verbatim>\<open>script.js\<close>, which does not look at
  \<^verbatim>\<open>isRunning\<close>. Applied to the paused timer (idle, 597 seconds remaining, end timestamp
  cleared) it computes a remaining time of \<open>0\<close> from the cleared timestamp, asks for the
  bell and sets \<open>remaining\<close> to the duration.
\<close>

theorem tick_on_paused_timer_rings:
  "\<not> isRunning paused \<and> remaining paused = 597 \<and>
   remaining (tick (at_ms 5000) paused) = 600 \<and>
   rung (tick (at_ms 5000) paused) = rung paused + 1"
  by (simp add: paused_value at_ms_def run_script rung_def rings_now_def)

text \<open>
  C5, amended. In \<^verbatim>\<open>script.js\<close> the check is made where \<^verbatim>\<open>tick\<close> is called: in every idle
  state the page reaches, every trigger through which the script calls \<^verbatim>\<open>tick\<close> (the
  heartbeat of any interval timer, a change of visibility) leaves the whole state as it
  is, so duration, remaining, end timestamp, running and the signal mechanism are
  unchanged and nothing is asked of the audio subsystem. In the variant whose \<^verbatim>\<open>tick\<close>
  begins with the check, \<^verbatim>\<open>tick\<close> itself leaves every idle state as it is.
\<close>

theorem idle_timer_ignores_triggers:
  assumes "s = run evs initial" "\<not> isRunning s" "is_trigger ev" "\<not> isRunning u"
  shows "dispatch h ev s = s \<and> tick_el h' u = u"
proof -
  have "wired s" using assms(1) wired_run [OF wired_initial] by simp
  with assms(2) have "timers s = []" by (auto simp: wired_def)
  with assms(2,3) have "dispatch h ev s = s"
    by (cases ev) (simp_all add: dispatch_def)
  with assms(4) show ?thesis by (simp add: tick_el_idle)
qed

theorem idle_timer_ignores_triggers_witness:
  "\<not> isRunning paused \<and> \<not> isRunning initial_el \<and>
   dispatch (at_ms 5000) (IntervalFire 1) paused = paused \<and>
   dispatch (at_ms 5000) (VisibilityChange True) paused = paused \<and>
   tick_el (at_ms 5000) initial_el = initial_el"
proof -
  have reach: "paused = run [(at_ms 0, ToggleClick), (at_ms 3000, IntervalFire 1),
      (at_ms 3500, ToggleClick)] initial"
    by (simp add: paused_def)
  have idle: "\<not> isRunning paused" "\<not> isRunning initial_el"
    by (simp_all add: paused_value initial_el_def)
  have t: "is_trigger (IntervalFire 1)" "is_trigger (VisibilityChange True)" by simp_all
  from idle_timer_ignores_triggers [OF reach idle(1) t(1) idle(2), of "at_ms 5000" "at_ms 5000"]
    idle_timer_ignores_triggers [OF reach idle(1) t(2) idle(2), of "at_ms 5000" "at_ms 5000"]
    idle
  show ?thesis by blast
qed

text \<open>
  C6. The \<^verbatim>\<open>stopTimer\<close> of \<^verbatim>\<open>script.js\<close> does not read the clock. The default timer,
  started at \<open>0\<close>, observed at \<open>1004\<close> (599 seconds remaining) and paused at \<open>2003\<close>,
  just before the next heartbeat, keeps \<open>remaining = 599\<close>, where the end timestamp
  gives 598.
\<close>

theorem stop_keeps_stale_remaining:
  "isRunning observed \<and> endTime observed = Some 600000 \<and> remaining observed = 599 \<and>
   \<not> isRunning (dispatch (at_ms 2003) ToggleClick observed) \<and>
   remaining (dispatch (at_ms 2003) ToggleClick observed) = 599 \<and>
   max 0 \<lceil>real_of_int (600000 - now (at_ms 2003)) / 1000\<rceil> = 598"
  by (simp add: observed_value at_ms_def dispatch_def)




subsection \<open>The bell\<close>




subsection \<open>Bounds\<close>

text \<open>
  C9. Whatever operations are applied to the initial state, in whatever order and at
  whatever clock values, the duration is at least five seconds.
\<close>

theorem duration_at_least_5: "5 \<le> duration (apply_ops xs initial)"
  using apply_ops_bounds [of initial xs] by (simp add: initial_def)

text \<open>
  C10. Whatever operations are applied to the initial state, the remaining time is a
  nonnegative integer.
\<close>

theorem remaining_nonnegative: "0 \<le> remaining (apply_ops xs initial)"
  using apply_ops_bounds [of initial xs] by (simp add: initial_def)

end
